theory Spec2Isabelle
  imports Main
begin

section \<open>Data model\<close>

datatype error = TypeError | ValueError | KeyError | IndexError | RuntimeError | AssertionError

datatype 'a node = Node (node_maxkeys: nat) (keys: "'a list") (children: "'a node list option")

record 'a btreeset =
  minkeys :: nat
  maxkeys :: nat
  root :: "'a node"
  size_s :: int

definition Node_init :: "nat \<Rightarrow> bool \<Rightarrow> error + 'a node" where
  "Node_init mk leaf =
     (if mk \<ge> 3 \<and> mk mod 2 = 1
      then Inr (Node mk [] (if leaf then None else Some []))
      else Inl AssertionError)"

definition min_keys :: "'a node \<Rightarrow> nat" where
  "min_keys n = node_maxkeys n div 2"

definition is_leaf :: "'a node \<Rightarrow> bool" where
  "is_leaf n = (children n = None)"

definition insert_at :: "nat \<Rightarrow> 'a \<Rightarrow> 'a list \<Rightarrow> 'a list" where
  "insert_at i x xs = take i xs @ x # drop i xs"

definition delete_at :: "nat \<Rightarrow> 'a list \<Rightarrow> 'a list" where
  "delete_at i xs = take i xs @ drop (Suc i) xs"

section \<open>Node operations\<close>

function search_loop :: "'a::linorder list \<Rightarrow> 'a \<Rightarrow> nat \<Rightarrow> bool \<times> nat" where
  "search_loop ks obj i =
     (if i < length ks then
        (if obj = ks ! i then (True, i)
         else if obj > ks ! i then search_loop ks obj (i + 1)
         else (False, i))
      else (False, i))"
  by pat_completeness auto
termination
  by (relation "measure (\<lambda>(ks, obj, i). length ks - i)") auto

declare search_loop.simps [simp del]

definition search :: "'a::linorder node \<Rightarrow> 'a \<Rightarrow> bool \<times> nat" where
  "search n obj = search_loop (keys n) obj 0"

definition remove_key :: "'a node \<Rightarrow> nat \<Rightarrow> error + ('a node \<times> 'a)" where
  "remove_key n index =
     (if index < length (keys n)
      then Inr (Node (node_maxkeys n) (delete_at index (keys n)) (children n), keys n ! index)
      else Inl IndexError)"

definition remove_key_and_child :: "'a node \<Rightarrow> nat \<Rightarrow> nat option \<Rightarrow> error + ('a node \<times> 'a)" where
  "remove_key_and_child n keyindex childindex =
     (if \<not> keyindex < length (keys n) then Inl IndexError
      else case children n of
        None \<Rightarrow> (case childindex of
                   Some ci \<Rightarrow> Inl ValueError
                 | None \<Rightarrow> remove_key n keyindex)
      | Some cs \<Rightarrow> (case childindex of
                   None \<Rightarrow> Inl TypeError
                 | Some ci \<Rightarrow>
                     if \<not> ci < length cs then Inl IndexError
                     else remove_key (Node (node_maxkeys n) (keys n) (Some (delete_at ci cs))) keyindex))"

definition split :: "'a node \<Rightarrow> error + ('a node \<times> 'a \<times> 'a node)" where
  "split n =
     (if length (keys n) \<noteq> node_maxkeys n then Inl RuntimeError
      else case Node_init (node_maxkeys n) (is_leaf n) of
        Inl e \<Rightarrow> Inl e
      | Inr rightnode \<Rightarrow>
          if \<not> min_keys n < length (keys n) then Inl IndexError
          else
            let middlekey = keys n ! min_keys n;
                rkeys = keys rightnode @ drop (min_keys n + 1) (keys n);
                lkeys = take (min_keys n) (keys n)
            in case children n of
                 None \<Rightarrow> Inr (Node (node_maxkeys n) lkeys None, middlekey,
                               Node (node_maxkeys rightnode) rkeys (children rightnode))
               | Some cs \<Rightarrow>
                   Inr (Node (node_maxkeys n) lkeys (Some (take (min_keys n + 1) cs)), middlekey,
                        Node (node_maxkeys rightnode) rkeys
                          (Some (the (children rightnode) @ drop (min_keys n + 1) cs))))"

definition merge_children :: "'a node \<Rightarrow> nat \<Rightarrow> error + ('a node \<times> 'a node)" where
  "merge_children n index =
     (case children n of
        None \<Rightarrow> Inl RuntimeError
      | Some cs \<Rightarrow>
          if length (keys n) = 0 then Inl RuntimeError
          else if \<not> index + 2 \<le> length cs then Inl ValueError
          else
            let left = cs ! index; right = cs ! (index + 1) in
            if \<not> (length (keys left) = length (keys right) \<and> length (keys right) = min_keys n)
            then Inl RuntimeError
            else case (case children left of
                         None \<Rightarrow> Inr None
                       | Some lcs \<Rightarrow> (case children right of
                                       None \<Rightarrow> Inl TypeError
                                     | Some rcs \<Rightarrow> Inr (Some (lcs @ rcs)))) of
                   Inl e \<Rightarrow> Inl e
                 | Inr lchildren \<Rightarrow>
                     (case remove_key_and_child n index (Some (index + 1)) of
                        Inl e \<Rightarrow> Inl e
                      | Inr (n', k) \<Rightarrow>
                          let left' = Node (node_maxkeys left) (keys left @ [k] @ keys right) lchildren
                          in Inr (Node (node_maxkeys n') (keys n')
                                    (map_option (\<lambda>cs'. cs'[index := left']) (children n')),
                                  left')))"

definition ensure_child_remove :: "'a node \<Rightarrow> nat \<Rightarrow> error + ('a node \<times> nat \<times> 'a node)" where
  "ensure_child_remove n index =
     (case children n of
        None \<Rightarrow> Inl AssertionError
      | Some cs \<Rightarrow>
          if \<not> index < length cs then Inl IndexError
          else
            let child = cs ! index in
            if length (keys child) > min_keys n then Inr (n, index, child)
            else if length (keys child) \<noteq> min_keys n then Inl AssertionError
            else if index < length (keys n) \<and> \<not> index + 1 < length cs then Inl IndexError
            else
              let left = (if index \<ge> 1 then Some (cs ! (index - 1)) else None);
                  right = (if index < length (keys n) then Some (cs ! (index + 1)) else None);
                  internal = (\<not> is_leaf child)
              in
              if left = None \<and> right = None then Inl AssertionError
              else if left \<noteq> None \<and> is_leaf (the left) = internal then Inl AssertionError
              else if right \<noteq> None \<and> is_leaf (the right) = internal then Inl AssertionError
              else if left \<noteq> None \<and> length (keys (the left)) > min_keys n then
                (let l = the left in
                 if internal \<and> the (children l) = [] then Inl IndexError
                 else if \<not> index - 1 < length (keys n) then Inl IndexError
                 else
                   let child' = Node (node_maxkeys child) (keys n ! (index - 1) # keys child)
                                  (if internal
                                   then Some (last (the (children l)) # the (children child))
                                   else children child);
                       l' = Node (node_maxkeys l) (butlast (keys l))
                              (if internal then Some (butlast (the (children l))) else children l)
                   in Inr (Node (node_maxkeys n) ((keys n)[index - 1 := last (keys l)])
                             (Some (cs[index - 1 := l', index := child'])), index, child'))
              else if right \<noteq> None \<and> length (keys (the right)) > min_keys n then
                (let r = the right in
                 if internal \<and> the (children r) = [] then Inl IndexError
                 else
                   let child' = Node (node_maxkeys child) (keys child @ [keys n ! index])
                                  (if internal
                                   then Some (the (children child) @ [hd (the (children r))])
                                   else children child);
                       r' = Node (node_maxkeys r) (tl (keys r))
                              (if internal then Some (tl (the (children r))) else children r)
                   in Inr (Node (node_maxkeys n) ((keys n)[index := hd (keys r)])
                             (Some (cs[index + 1 := r', index := child'])), index, child'))
              else if left \<noteq> None then
                (case merge_children n (index - 1) of
                   Inl e \<Rightarrow> Inl e
                 | Inr (n', left') \<Rightarrow> Inr (n', index - 1, left'))
              else
                (case merge_children n index of
                   Inl e \<Rightarrow> Inl e
                 | Inr (n', child') \<Rightarrow> Inr (n', index, child')))"

section \<open>Termination measure\<close>

fun height :: "'a node \<Rightarrow> nat" where
  "height (Node m ks None) = 0"
| "height (Node m ks (Some cs)) = Suc (Max (insert 0 (height ` set cs)))"

lemma height_child: "children n = Some cs \<Longrightarrow> c \<in> set cs \<Longrightarrow> height c < height n"
  by (cases n) (auto simp: less_Suc_eq_le)

lemma height_nth: "children n = Some cs \<Longrightarrow> i < length cs \<Longrightarrow> height (cs ! i) < height n"
  by (rule height_child) auto

lemma height_NodeI:
  assumes "\<And>cs' c. ch = Some cs' \<Longrightarrow> c \<in> set cs' \<Longrightarrow> height c < h"
    and "ch \<noteq> None \<Longrightarrow> 0 < h"
  shows "height (Node m ks ch) \<le> h"
proof (cases ch)
  case None
  then show ?thesis by simp
next
  case (Some cs')
  have "Max (insert 0 (height ` set cs')) < h"
    using assms Some by (subst Max_less_iff) auto
  with Some show ?thesis by (simp add: Suc_le_eq del: Max_less_iff)
qed

lemma height_pos: "children n = Some cs \<Longrightarrow> 0 < height n"
  by (cases n) auto

lemma split_height:
  assumes "split c = Inr (l, m, r)"
  shows "height l \<le> height c \<and> height r \<le> height c"
proof (cases "children c")
  case None
  with assms show ?thesis
    by (auto simp: split_def Node_init_def is_leaf_def Let_def split: if_splits)
next
  case (Some cs)
  have a: "x \<in> set (take k cs) \<Longrightarrow> height x < height c" for x k
    using height_child[OF Some] by (auto dest: in_set_takeD)
  have b: "x \<in> set (drop k cs) \<Longrightarrow> height x < height c" for x k
    using height_child[OF Some] by (auto dest: in_set_dropD)
  from assms Some have l: "l = Node (node_maxkeys c) (take (min_keys c) (keys c)) (Some (take (min_keys c + 1) cs))"
    and r: "r = Node (node_maxkeys c) (drop (min_keys c + 1) (keys c)) (Some (drop (min_keys c + 1) cs))"
    by (auto simp: split_def Node_init_def is_leaf_def Let_def split: if_splits)
  show ?thesis unfolding l r
    using a b height_pos[OF Some] by (intro conjI height_NodeI; auto)
qed

lemma merge_children_height:
  assumes "merge_children n i = Inr (n', l)"
  shows "height l < height n"
proof -
  from assms obtain cs where cs: "children n = Some cs" and i: "i + 2 \<le> length cs"
    by (auto simp: merge_children_def Let_def split: option.splits if_splits)
  let ?L = "cs ! i" and ?R = "cs ! (i + 1)"
  have hl: "height ?L < height n" and hr: "height ?R < height n"
    using i by (auto intro!: height_nth[OF cs])
  from assms cs i obtain ch k where l: "l = Node (node_maxkeys ?L) (keys ?L @ [k] @ keys ?R) ch"
    and ch: "ch = None \<or> (\<exists>lcs rcs. children ?L = Some lcs \<and> children ?R = Some rcs \<and> ch = Some (lcs @ rcs))"
    by (auto simp: merge_children_def Let_def split: option.splits if_splits sum.splits)
  have "height l \<le> max (height ?L) (height ?R)"
    unfolding l using ch
    by (intro height_NodeI) (auto dest: height_child height_pos simp: less_max_iff_disj)
  with hl hr show ?thesis by simp
qed

lemma ensure_child_remove_height:
  assumes "ensure_child_remove n i = Inr (n', ci, c)"
  shows "height c < height n"
proof -
  from assms obtain cs where cs: "children n = Some cs" and i: "i < length cs"
    by (auto simp: ensure_child_remove_def Let_def split: option.splits if_splits)
  let ?C = "cs ! i"
  have hc: "height ?C < height n" using i by (auto intro!: height_nth[OF cs])
  consider (same) "c = ?C"
    | (left) "1 \<le> i" "c = Node (node_maxkeys ?C) (keys n ! (i - 1) # keys ?C)
                 (if \<not> is_leaf ?C then Some (last (the (children (cs ! (i - 1)))) # the (children ?C)) else children ?C)"
        "is_leaf (cs ! (i - 1)) = is_leaf ?C" "\<not> is_leaf ?C \<Longrightarrow> the (children (cs ! (i - 1))) \<noteq> []"
    | (right) "i + 1 < length cs" "c = Node (node_maxkeys ?C) (keys ?C @ [keys n ! i])
                 (if \<not> is_leaf ?C then Some (the (children ?C) @ [hd (the (children (cs ! (i + 1))))]) else children ?C)"
        "is_leaf (cs ! (i + 1)) = is_leaf ?C" "\<not> is_leaf ?C \<Longrightarrow> the (children (cs ! (i + 1))) \<noteq> []"
    | (merge) j where "merge_children n j = Inr (n', c)"
    using assms cs i
    by (auto simp: ensure_child_remove_def Let_def split: if_splits sum.splits)
  then show ?thesis
  proof cases
    case same
    with hc show ?thesis by simp
  next
    case left
    let ?L = "cs ! (i - 1)"
    have hl: "height ?L < height n" using i by (auto intro!: height_nth[OF cs])
    have "\<And>ys x. children ?L = Some ys \<Longrightarrow> x \<in> set ys \<Longrightarrow> height x < max (height ?L) (height ?C)"
      "\<And>ys x. children ?C = Some ys \<Longrightarrow> x \<in> set ys \<Longrightarrow> height x < max (height ?L) (height ?C)"
      "\<And>ys. children ?C = Some ys \<Longrightarrow> 0 < max (height ?L) (height ?C)"
      by (auto simp: less_max_iff_disj dest: height_child height_pos)
    then have "height c \<le> max (height ?L) (height ?C)"
      unfolding left(2) using left(3,4)
      by (intro height_NodeI)
         (auto simp: is_leaf_def split: if_splits)
    with hl hc show ?thesis by simp
  next
    case right
    let ?R = "cs ! (i + 1)"
    have hr: "height ?R < height n" using right(1) by (auto intro!: height_nth[OF cs])
    have "\<And>ys x. children ?R = Some ys \<Longrightarrow> x \<in> set ys \<Longrightarrow> height x < max (height ?R) (height ?C)"
      "\<And>ys x. children ?C = Some ys \<Longrightarrow> x \<in> set ys \<Longrightarrow> height x < max (height ?R) (height ?C)"
      "\<And>ys. children ?C = Some ys \<Longrightarrow> 0 < max (height ?R) (height ?C)"
      by (auto simp: less_max_iff_disj dest: height_child height_pos)
    then have "height c \<le> max (height ?R) (height ?C)"
      unfolding right(2) using right(3,4)
      by (intro height_NodeI)
         (auto simp: is_leaf_def hd_in_set split: if_splits)
    with hr hc show ?thesis by simp
  next
    case merge
    then show ?thesis by (rule merge_children_height)
  qed
qed

section \<open>Loops of the node and of the set\<close>

function remove_min_loop :: "nat \<Rightarrow> 'a node \<Rightarrow> error + ('a node \<times> 'a)" where
  "remove_min_loop smin node =
     (case children node of
        None \<Rightarrow>
          if \<not> length (keys node) > smin then Inl AssertionError
          else remove_key node 0
      | Some cs \<Rightarrow>
          if \<not> length (keys node) > smin then Inl AssertionError
          else (case ensure_child_remove node 0 of
                  Inl e \<Rightarrow> Inl e
                | Inr (node', ci, child) \<Rightarrow>
                    (case remove_min_loop smin child of
                       Inl e \<Rightarrow> Inl e
                     | Inr (child', k) \<Rightarrow>
                         Inr (Node (node_maxkeys node') (keys node')
                                (map_option (\<lambda>cs'. cs'[ci := child']) (children node')), k))))"
  by pat_completeness auto
termination
  by (relation "measure (\<lambda>(smin, node). height node)")
     (auto dest: ensure_child_remove_height)

declare remove_min_loop.simps [simp del]

definition remove_min :: "'a node \<Rightarrow> error + ('a node \<times> 'a)" where
  "remove_min n = remove_min_loop (min_keys n) n"

function remove_max_loop :: "nat \<Rightarrow> 'a node \<Rightarrow> error + ('a node \<times> 'a)" where
  "remove_max_loop smin node =
     (case children node of
        None \<Rightarrow>
          if \<not> length (keys node) > smin then Inl AssertionError
          else remove_key node (length (keys node) - 1)
      | Some cs \<Rightarrow>
          if \<not> length (keys node) > smin then Inl AssertionError
          else (case ensure_child_remove node (length cs - 1) of
                  Inl e \<Rightarrow> Inl e
                | Inr (node', ci, child) \<Rightarrow>
                    (case remove_max_loop smin child of
                       Inl e \<Rightarrow> Inl e
                     | Inr (child', k) \<Rightarrow>
                         Inr (Node (node_maxkeys node') (keys node')
                                (map_option (\<lambda>cs'. cs'[ci := child']) (children node')), k))))"
  by pat_completeness auto
termination
  by (relation "measure (\<lambda>(smin, node). height node)")
     (auto dest: ensure_child_remove_height)

declare remove_max_loop.simps [simp del]

definition remove_max :: "'a node \<Rightarrow> error + ('a node \<times> 'a)" where
  "remove_max n = remove_max_loop (min_keys n) n"

function contains_loop :: "'a::linorder node \<Rightarrow> 'a \<Rightarrow> error + bool" where
  "contains_loop node obj =
     (case search node obj of
        (found, index) \<Rightarrow>
          if found then Inr True
          else (case children node of
                  None \<Rightarrow> Inr False
                | Some cs \<Rightarrow>
                    if \<not> index < length cs then Inl IndexError
                    else contains_loop (cs ! index) obj))"
  by pat_completeness auto
termination
  by (relation "measure (\<lambda>(node, obj). height node)")
     (auto dest: height_nth)

declare contains_loop.simps [simp del]

definition contains :: "'a::linorder btreeset \<Rightarrow> 'a \<Rightarrow> error + bool" where
  "contains s obj = contains_loop (root s) obj"

function add_loop :: "nat \<Rightarrow> nat \<Rightarrow> bool \<Rightarrow> 'a::linorder node \<Rightarrow> 'a \<Rightarrow> error + ('a node \<times> bool)" where
  "add_loop smin smax isroot node obj =
     (if \<not> length (keys node) < smax then Inl AssertionError
      else if \<not> (isroot \<or> length (keys node) \<ge> smin) then Inl AssertionError
      else case search node obj of
        (found, index) \<Rightarrow>
          if found then Inr (node, False)
          else (case children node of
                  None \<Rightarrow>
                    Inr (Node (node_maxkeys node) (insert_at index obj (keys node)) None, True)
                | Some cs \<Rightarrow>
                    if \<not> index < length cs then Inl IndexError
                    else
                      let child = cs ! index in
                      if length (keys child) = smax then
                        (case split child of
                           Inl e \<Rightarrow> Inl e
                         | Inr (left, middlekey, right) \<Rightarrow>
                             let cs' = insert_at (index + 1) right (cs[index := left]);
                                 ks' = insert_at index middlekey (keys node)
                             in
                             if obj = middlekey
                             then Inr (Node (node_maxkeys node) ks' (Some cs'), False)
                             else if obj > middlekey then
                               (case add_loop smin smax False right obj of
                                  Inl e \<Rightarrow> Inl e
                                | Inr (right', added) \<Rightarrow>
                                    Inr (Node (node_maxkeys node) ks'
                                           (Some (cs'[index + 1 := right'])), added))
                             else
                               (case add_loop smin smax False left obj of
                                  Inl e \<Rightarrow> Inl e
                                | Inr (left', added) \<Rightarrow>
                                    Inr (Node (node_maxkeys node) ks'
                                           (Some (cs'[index := left'])), added)))
                      else
                        (case add_loop smin smax False child obj of
                           Inl e \<Rightarrow> Inl e
                         | Inr (child', added) \<Rightarrow>
                             Inr (Node (node_maxkeys node) (keys node)
                                    (Some (cs[index := child'])), added))))"
  by pat_completeness auto
termination
  apply (relation "measure (\<lambda>(smin, smax, isroot, node, obj). height node)")
     apply simp
    apply (auto dest!: split_height dest: height_nth)
  done

declare add_loop.simps [simp del]

definition add :: "'a::linorder btreeset \<Rightarrow> 'a \<Rightarrow> error + 'a btreeset" where
  "add s obj =
     (case (if length (keys (root s)) = maxkeys s then
              (case split (root s) of
                 Inl e \<Rightarrow> Inl e
               | Inr (left, middlekey, right) \<Rightarrow>
                   (case Node_init (maxkeys s) False of
                      Inl e \<Rightarrow> Inl e
                    | Inr r \<Rightarrow>
                        Inr (Node (node_maxkeys r) (keys r @ [middlekey])
                               (map_option (\<lambda>cs. cs @ [left, right]) (children r)))))
            else Inr (root s)) of
        Inl e \<Rightarrow> Inl e
      | Inr root' \<Rightarrow>
          (case add_loop (minkeys s) (maxkeys s) True root' obj of
             Inl e \<Rightarrow> Inl e
           | Inr (root'', added) \<Rightarrow>
               Inr (s\<lparr>root := root'', size_s := (if added then size_s s + 1 else size_s s)\<rparr>)))"

function remove_loop ::
  "nat \<Rightarrow> nat \<Rightarrow> bool \<Rightarrow> 'a::linorder node \<Rightarrow> bool \<Rightarrow> nat \<Rightarrow> 'a \<Rightarrow> error + ('a node \<times> bool)" where
  "remove_loop smin smax isroot node found index obj =
     (if \<not> length (keys node) \<le> smax then Inl AssertionError
      else if \<not> (isroot \<or> length (keys node) > smin) then Inl AssertionError
      else case children node of
        None \<Rightarrow>
          if found then
            (case remove_key node index of
               Inl e \<Rightarrow> Inl e
             | Inr (node', k) \<Rightarrow> Inr (node', True))
          else Inr (node, False)
      | Some cs \<Rightarrow>
          if found then
            (if \<not> index + 2 \<le> length cs then Inl ValueError
             else
               let left = cs ! index; right = cs ! (index + 1) in
               if length (keys left) > smin then
                 (case remove_max left of
                    Inl e \<Rightarrow> Inl e
                  | Inr (left', k) \<Rightarrow>
                      if \<not> index < length (keys node) then Inl IndexError
                      else Inr (Node (node_maxkeys node) ((keys node)[index := k])
                                  (Some (cs[index := left'])), True))
               else if length (keys right) > smin then
                 (case remove_min right of
                    Inl e \<Rightarrow> Inl e
                  | Inr (right', k) \<Rightarrow>
                      if \<not> index < length (keys node) then Inl IndexError
                      else Inr (Node (node_maxkeys node) ((keys node)[index := k])
                                  (Some (cs[index + 1 := right'])), True))
               else
                 (case merge_children node index of
                    Inl e \<Rightarrow> Inl e
                  | Inr (node', left') \<Rightarrow>
                      if isroot \<and> length (keys node') = 0
                      then remove_loop smin smax True left' True smin obj
                      else
                        (case remove_loop smin smax False left' True smin obj of
                           Inl e \<Rightarrow> Inl e
                         | Inr (left'', removed) \<Rightarrow>
                             Inr (Node (node_maxkeys node') (keys node')
                                    (map_option (\<lambda>cs'. cs'[index := left'']) (children node')),
                                  removed))))
          else
            (case ensure_child_remove node index of
               Inl e \<Rightarrow> Inl e
             | Inr (node', ci, child) \<Rightarrow>
                 if isroot \<and> length (keys node') = 0 then
                   (case children node' of
                      None \<Rightarrow> Inl TypeError
                    | Some cs' \<Rightarrow>
                        if cs' = [] then Inl IndexError
                        else
                          (case search child obj of
                             (found', index') \<Rightarrow>
                               if ci = 0
                               then remove_loop smin smax True child found' index' obj
                               else
                                 (case remove_loop smin smax False child found' index' obj of
                                    Inl e \<Rightarrow> Inl e
                                  | Inr (child', removed) \<Rightarrow> Inr (cs' ! 0, removed))))
                 else
                   (case search child obj of
                      (found', index') \<Rightarrow>
                        (case remove_loop smin smax False child found' index' obj of
                           Inl e \<Rightarrow> Inl e
                         | Inr (child', removed) \<Rightarrow>
                             Inr (Node (node_maxkeys node') (keys node')
                                    (map_option (\<lambda>cs'. cs'[ci := child']) (children node')),
                                  removed)))))"
  by pat_completeness auto
termination
  apply (relation "measure (\<lambda>(smin, smax, isroot, node, found, index, obj). height node)")
       apply simp
      apply (auto dest: merge_children_height ensure_child_remove_height)
  done

declare remove_loop.simps [simp del]

definition remove_internal :: "'a::linorder btreeset \<Rightarrow> 'a \<Rightarrow> error + ('a btreeset \<times> bool)" where
  "remove_internal s obj =
     (case search (root s) obj of
        (found, index) \<Rightarrow>
          (case remove_loop (minkeys s) (maxkeys s) True (root s) found index obj of
             Inl e \<Rightarrow> Inl e
           | Inr (root', removed) \<Rightarrow>
               Inr (s\<lparr>root := root', size_s := (if removed then size_s s - 1 else size_s s)\<rparr>,
                    removed)))"

definition remove :: "'a::linorder btreeset \<Rightarrow> 'a \<Rightarrow> error + ('a btreeset \<times> error option)" where
  "remove s obj =
     (case remove_internal s obj of
        Inl e \<Rightarrow> Inl e
      | Inr (s', removed) \<Rightarrow> Inr (s', if \<not> removed then Some KeyError else None))"

definition discard :: "'a::linorder btreeset \<Rightarrow> 'a \<Rightarrow> error + 'a btreeset" where
  "discard s obj =
     (case remove_internal s obj of
        Inl e \<Rightarrow> Inl e
      | Inr (s', removed) \<Rightarrow> Inr s')"

definition clear :: "'a btreeset \<Rightarrow> error + 'a btreeset" where
  "clear s =
     (case Node_init (maxkeys s) True of
        Inl e \<Rightarrow> Inl e
      | Inr r \<Rightarrow> Inr (s\<lparr>root := r, size_s := 0\<rparr>))"

fun add_all :: "'a::linorder btreeset \<Rightarrow> 'a list \<Rightarrow> error + 'a btreeset" where
  "add_all s [] = Inr s"
| "add_all s (obj # objs) =
     (case add s obj of
        Inl e \<Rightarrow> Inl e
      | Inr s' \<Rightarrow> add_all s' objs)"

definition BTreeSet_init :: "int \<Rightarrow> 'a::linorder list option \<Rightarrow> error + 'a btreeset" where
  "BTreeSet_init degree coll =
     (if degree < 2 then Inl ValueError
      else
        (case clear \<lparr>minkeys = nat (degree - 1), maxkeys = nat (degree * 2 - 1),
                     root = Node (nat (degree * 2 - 1)) [] None, size_s = 0\<rparr> of
           Inl e \<Rightarrow> Inl e
         | Inr s \<Rightarrow>
             (case coll of
                None \<Rightarrow> Inr s
              | Some objs \<Rightarrow> add_all s objs)))"

definition len :: "'a btreeset \<Rightarrow> int" where
  "len s = size_s s"

function push_left_path :: "('a node \<times> nat) list \<Rightarrow> 'a node \<Rightarrow> error + ('a node \<times> nat) list" where
  "push_left_path stack node =
     (case children node of
        None \<Rightarrow> Inr ((node, 0) # stack)
      | Some cs \<Rightarrow>
          if cs = [] then Inl IndexError
          else push_left_path ((node, 0) # stack) (cs ! 0))"
  by pat_completeness auto
termination
  by (relation "measure (\<lambda>(stack, node). height node)") (auto dest: height_nth)

declare push_left_path.simps [simp del]

fun height_loop :: "'a node \<Rightarrow> int \<Rightarrow> error + int" where
  "height_loop (Node m ks None) h = Inr h"
| "height_loop (Node m ks (Some [])) h = Inl IndexError"
| "height_loop (Node m ks (Some (c # cs))) h = height_loop c (h + 1)"

fun check_order :: "'a::linorder option list \<Rightarrow> bool" where
  "check_order (x # y # rest) =
     (case (x, y) of
        (Some a, Some b) \<Rightarrow> if b \<le> a then False else check_order (y # rest)
      | _ \<Rightarrow> check_order (y # rest))"
| "check_order _ = True"

fun node_check_structure ::
      "'a::linorder node \<Rightarrow> bool \<Rightarrow> int \<Rightarrow> 'a option \<Rightarrow> 'a option \<Rightarrow> error + nat"
  and check_children ::
      "'a::linorder node list \<Rightarrow> nat \<Rightarrow> int \<Rightarrow> 'a option list \<Rightarrow> nat \<Rightarrow> error + nat" where
  "node_check_structure (Node m ks ch) isroot leafdepth mn mx =
     (if (ch = None) \<noteq> (leafdepth = 0) then Inl AssertionError
      else if length ks > m then Inl AssertionError
      else if isroot \<and> ch \<noteq> None \<and> length ks = 0 then Inl AssertionError
      else if \<not> isroot \<and> length ks < m div 2 then Inl AssertionError
      else
        let tempkeys = [mn] @ map Some ks @ [mx] in
        if \<not> check_order tempkeys then Inl AssertionError
        else (case ch of
                None \<Rightarrow> Inr (length ks)
              | Some cs \<Rightarrow>
                  if length cs \<noteq> length ks + 1 then Inl AssertionError
                  else check_children cs 0 (leafdepth - 1) tempkeys (length ks)))"
| "check_children [] i leafdepth tempkeys count = Inr count"
| "check_children (child # cs) i leafdepth tempkeys count =
     (case node_check_structure child False leafdepth (tempkeys ! i) (tempkeys ! (i + 1)) of
        Inl e \<Rightarrow> Inl e
      | Inr k \<Rightarrow> check_children cs (i + 1) leafdepth tempkeys (count + k))"

definition check_structure :: "'a::linorder btreeset \<Rightarrow> error + unit" where
  "check_structure s =
     (let sz = size_s s; r = root s in
      if sz < 0 \<or> (sz > int (maxkeys s) \<and> is_leaf r)
         \<or> (sz \<le> int (minkeys s * 2) \<and> (\<not> is_leaf r \<or> int (length (keys r)) \<noteq> sz))
      then Inl AssertionError
      else (case height_loop r 0 of
              Inl e \<Rightarrow> Inl e
            | Inr h \<Rightarrow>
                (case node_check_structure r True h None None of
                   Inl e \<Rightarrow> Inl e
                 | Inr c \<Rightarrow> if int c \<noteq> sz then Inl AssertionError else Inr ())))"

datatype 'a op = Add 'a | Remove 'a | Discard 'a | Clear

fun step :: "'a::linorder btreeset \<Rightarrow> 'a op \<Rightarrow> error + 'a btreeset" where
  "step s (Add k) = add s k"
| "step s (Remove k) = (case remove s k of Inl e \<Rightarrow> Inl e | Inr (s', exn) \<Rightarrow> Inr s')"
| "step s (Discard k) = discard s k"
| "step s Clear = clear s"

fun run :: "'a::linorder btreeset \<Rightarrow> 'a op list \<Rightarrow> error + 'a btreeset" where
  "run s [] = Inr s"
| "run s (x # xs) = (case step s x of Inl e \<Rightarrow> Inl e | Inr s' \<Rightarrow> run s' xs)"

section \<open>Iteration\<close>

fun node_weight :: "'a node \<Rightarrow> nat" where
  "node_weight (Node m ks None) = 1"
| "node_weight (Node m ks (Some cs)) = 1 + length cs + sum_list (map node_weight cs)"

definition frame_weight :: "'a node \<times> nat \<Rightarrow> nat" where
  "frame_weight f =
     (case children (fst f) of
        None \<Rightarrow> 1
      | Some cs \<Rightarrow> 1 + (length cs - snd f) + sum_list (map node_weight (drop (snd f + 1) cs)))"

lemma node_weight_internal:
  "children n = Some cs \<Longrightarrow> node_weight n = 1 + length cs + sum_list (map node_weight cs)"
  by (cases n) auto

lemma node_weight_leaf: "children n = None \<Longrightarrow> node_weight n = 1"
  by (cases n) auto

lemma push_left_path_weight:
  "push_left_path stack node = Inr stack' \<Longrightarrow>
     sum_list (map frame_weight stack') = sum_list (map frame_weight stack) + node_weight node"
proof (induction stack node arbitrary: stack' rule: push_left_path.induct)
  case (1 stack node)
  show ?case
  proof (cases "children node")
    case None
    with "1.prems" show ?thesis
      by (auto simp: push_left_path.simps[of stack node] frame_weight_def node_weight_leaf)
  next
    case (Some cs)
    with "1.prems" have ne: "cs \<noteq> []" and rec: "push_left_path ((node, 0) # stack) (cs ! 0) = Inr stack'"
      by (auto simp: push_left_path.simps[of stack node] split: if_splits)
    obtain c cs' where cs: "cs = c # cs'" using ne by (cases cs) auto
    from "1.IH"[OF Some ne rec] show ?thesis
      using Some cs by (simp add: frame_weight_def node_weight_internal)
  qed
qed

function iter_loop :: "('a node \<times> nat) list \<Rightarrow> error + 'a list" where
  "iter_loop [] = Inr []"
| "iter_loop ((node, index) # stack) =
     (case children node of
        None \<Rightarrow>
          if index \<noteq> 0 then Inl AssertionError
          else (case iter_loop stack of
                  Inl e \<Rightarrow> Inl e
                | Inr ys \<Rightarrow> Inr (keys node @ ys))
      | Some cs \<Rightarrow>
          if \<not> index < length (keys node) then Inl IndexError
          else
            let index' = index + 1;
                stack' = (if index' < length (keys node) then (node, index') # stack else stack)
            in
            if \<not> index' < length cs then Inl IndexError
            else (case push_left_path stack' (cs ! index') of
                    Inl e \<Rightarrow> Inl e
                  | Inr stack'' \<Rightarrow>
                      (case iter_loop stack'' of
                         Inl e \<Rightarrow> Inl e
                       | Inr ys \<Rightarrow> Inr (keys node ! index # ys))))"
  by pat_completeness auto
termination
proof (relation "measure (\<lambda>stack. sum_list (map frame_weight stack))", goal_cases)
  case 1
  show ?case by simp
next
  case (2 node index stack)
  then show ?case by (simp add: frame_weight_def)
next
  case (3 node index stack cs index' stack' stack'')
  have d: "drop (Suc index) cs = cs ! Suc index # drop (Suc (Suc index)) cs"
    using 3 by (simp add: Cons_nth_drop_Suc)
  from 3 have "sum_list (map frame_weight stack'') =
      sum_list (map frame_weight stack') + node_weight (cs ! Suc index)"
    by (auto dest!: push_left_path_weight)
  moreover have "sum_list (map frame_weight stack') \<le>
      frame_weight (node, Suc index) + sum_list (map frame_weight stack)"
    using 3 by auto
  ultimately show ?case
    using 3 d by (simp add: frame_weight_def)
qed

declare iter_loop.simps [simp del]

definition iterate :: "'a btreeset \<Rightarrow> error + 'a list" where
  "iterate s =
     (case push_left_path [] (root s) of
        Inl e \<Rightarrow> Inl e
      | Inr stack \<Rightarrow> iter_loop stack)"

section \<open>Search within a node\<close>

lemma search_loop_result:
  "search_loop ks obj i = (f, r) \<Longrightarrow> i \<le> length ks \<Longrightarrow> \<forall>j<i. ks ! j < obj \<Longrightarrow>
     i \<le> r \<and> r \<le> length ks \<and> (\<forall>j<r. ks ! j < obj) \<and>
     (if f then r < length ks \<and> ks ! r = obj else (r < length ks \<longrightarrow> obj < ks ! r))"
proof (induction ks obj i rule: search_loop.induct)
  case (1 ks obj i)
  show ?case
  proof (cases "i < length ks \<and> obj \<noteq> ks ! i \<and> obj > ks ! i")
    case True
    then have eq: "search_loop ks obj (i + 1) = (f, r)"
      using "1.prems"(1) by (simp add: search_loop.simps[of ks obj i])
    have "\<forall>j<i + 1. ks ! j < obj"
      using True "1.prems"(3) by (auto simp: less_Suc_eq)
    with "1.IH"[OF _ _ _ eq] True show ?thesis by auto
  next
    case False
    then show ?thesis
      using "1.prems" by (auto simp: search_loop.simps[of ks obj i] split: if_splits)
  qed
qed

lemma search_result:
  assumes "search n obj = (f, r)"
  shows "r \<le> length (keys n) \<and> (\<forall>j<r. keys n ! j < obj) \<and>
     (if f then r < length (keys n) \<and> keys n ! r = obj else (r < length (keys n) \<longrightarrow> obj < keys n ! r))"
  using search_loop_result[of "keys n" obj 0 f r] assms by (simp add: search_def)

lemma sorted_wrt_nth_less: "sorted_wrt (<) ks \<Longrightarrow> i < j \<Longrightarrow> j < length ks \<Longrightarrow> ks ! i < ks ! j"
  by (simp add: sorted_wrt_iff_nth_less)

text \<open>
  Claim C8 (Node.search): on a node whose keys are strictly increasing, the search returns
  \<open>(True, i)\<close> with \<open>keys ! i = obj\<close> when the key is stored in the node, and otherwise
  \<open>(False, i)\<close> where every key before \<open>i\<close> is smaller than \<open>obj\<close> and every key from
  \<open>i\<close> on is greater (so \<open>i\<close> is the index of the first greater key, or the number of
  keys when there is none). The function only reads the node: its result is the pair alone.
\<close>

theorem search_postcondition:
  fixes n :: "'a::linorder node"
  assumes "sorted_wrt (<) (keys n)"
  shows "(obj \<in> set (keys n) \<longrightarrow>
           (\<exists>i<length (keys n). keys n ! i = obj \<and> search n obj = (True, i)))
       \<and> (obj \<notin> set (keys n) \<longrightarrow>
           (\<exists>i\<le>length (keys n). search n obj = (False, i)
              \<and> (\<forall>j<i. keys n ! j < obj)
              \<and> (\<forall>j<length (keys n). i \<le> j \<longrightarrow> obj < keys n ! j)))"
proof -
  obtain f r where fr: "search n obj = (f, r)" by (cases "search n obj")
  note R = search_result[OF fr]
  show ?thesis
  proof (cases f)
    case True
    with R fr show ?thesis by auto
  next
    case False
    have later: "\<forall>j<length (keys n). r \<le> j \<longrightarrow> obj < keys n ! j"
    proof (intro allI impI)
      fix j assume j: "j < length (keys n)" "r \<le> j"
      then have "r < length (keys n)" by simp
      with R False have "obj < keys n ! r" by simp
      moreover have "r < j \<Longrightarrow> keys n ! r < keys n ! j"
        using sorted_wrt_nth_less[OF assms _ j(1)] by simp
      ultimately show "obj < keys n ! j" using j(2) by (cases "r = j") auto
    qed
    have "obj \<notin> set (keys n)"
    proof
      assume "obj \<in> set (keys n)"
      then obtain j where j: "j < length (keys n)" "keys n ! j = obj" by (auto simp: in_set_conv_nth)
      show False
      proof (cases "j < r")
        case True with R j show False by auto
      next
        case False with later j show False by auto
      qed
    qed
    with R fr False later show ?thesis by auto
  qed
qed

theorem search_postcondition_witness:
  "sorted_wrt (<) (keys (Node 3 [1, 3, 5::nat] None))
   \<and> search (Node 3 [1, 3, 5::nat] None) 3 = (True, 1)
   \<and> search (Node 3 [1, 3, 5::nat] None) 4 = (False, 2)"
proof -
  have s: "sorted_wrt (<) (keys (Node 3 [1, 3, 5::nat] None))" by simp
  have a: "search (Node 3 [1, 3, 5::nat] None) 3 = (True, 1)"
    by (simp add: search_def search_loop.simps)
  have b: "search (Node 3 [1, 3, 5::nat] None) 4 = (False, 2)"
    by (simp add: search_def search_loop.simps)
  from search_postcondition[OF s, of 3] s a b show ?thesis by simp
qed


end
